theory Spec2Isabelle
  imports
    Complex_Main
    "HOL-Library.Char_ord"
    "HOL-Library.List_Lexorder"
    "HOL-Library.Product_Lexorder"
    "HOL-Library.Multiset"
begin

section \<open>Values, strings and dictionaries of transformer.py\<close>

text \<open>
  The transformer works on a list of dictionaries whose values are Python scalars.
  The model covers the four kinds the loaders produce for scalar cells: \<open>int\<close>
  (unbounded), \<open>float\<close>, \<open>str\<close> and \<open>None\<close>. A float is carried by its exact
  rational value; this fits every finite IEEE double, and makes the comparisons of
  Python (which compares \<open>int\<close> with \<open>float\<close> by exact value) plain comparisons of
  rationals. NaN and the infinities are outside the model. Strings are lists of
  characters compared by code point; the character predicates below are those of
  Python on ASCII text.
\<close>

datatype py_value = VInt int | VFloat rat | VStr string | VNone

datatype py_error = TypeError | ValueError | OverflowError

type_synonym row = "(string \<times> py_value) list"

type_synonym dataset = "row list"

text \<open>
  The operations of floating-point arithmetic that the program uses are a parameter of
  the model: parsing a string (\<open>float(s)\<close>, \<open>None\<close> for \<open>ValueError\<close>), the conversion
  of an \<open>int\<close> operand (\<open>None\<close> for \<open>OverflowError\<close>), the rounded product and sum,
  and \<open>str\<close> of a float.
\<close>

record float_ops =
  float_parse :: "string \<Rightarrow> rat option"
  float_of_int :: "int \<Rightarrow> rat option"
  float_mul :: "rat \<Rightarrow> rat \<Rightarrow> rat"
  float_add :: "rat \<Rightarrow> rat \<Rightarrow> rat"
  float_str :: "rat \<Rightarrow> string"

subsection \<open>String methods\<close>

definition isspace :: "char \<Rightarrow> bool" where
  "isspace c = (c \<in> {CHR 0x09, CHR 0x0A, CHR 0x0B, CHR 0x0C, CHR 0x0D,
                      CHR 0x1C, CHR 0x1D, CHR 0x1E, CHR 0x1F, CHR 0x20})"

definition isdigit :: "char \<Rightarrow> bool" where
  "isdigit c = (c \<in> set ''0123456789'')"

definition isalpha :: "char \<Rightarrow> bool" where
  "isalpha c = (c \<in> set ''abcdefghijklmnopqrstuvwxyzABCDEFGHIJKLMNOPQRSTUVWXYZ'')"

text \<open>\<open>s.isalnum()\<close>: false on the empty string.\<close>

definition isalnum :: "string \<Rightarrow> bool" where
  "isalnum s = (s \<noteq> [] \<and> list_all (\<lambda>c. isalpha c \<or> isdigit c) s)"

definition strip :: "string \<Rightarrow> string" where
  "strip s = rev (dropWhile isspace (rev (dropWhile isspace s)))"

definition lower_char :: "char \<Rightarrow> char" where
  "lower_char c =
     (case map_of (zip ''ABCDEFGHIJKLMNOPQRSTUVWXYZ'' ''abcdefghijklmnopqrstuvwxyz'') c of
        None \<Rightarrow> c | Some d \<Rightarrow> d)"

definition lower :: "string \<Rightarrow> string" where
  "lower s = map lower_char s"

text \<open>\<open>s.split(c)\<close>: every occurrence of the separator splits.\<close>

fun split_chr :: "char \<Rightarrow> string \<Rightarrow> string list" where
  "split_chr c [] = [[]]"
| "split_chr c (x # xs) =
     (if x = c then [] # split_chr c xs
      else (case split_chr c xs of [] \<Rightarrow> [[x]] | w # ws \<Rightarrow> (x # w) # ws))"

text \<open>\<open>s.split(c, n)\<close>: at most \<open>n\<close> splits, from the left.\<close>

fun split_max :: "char \<Rightarrow> nat \<Rightarrow> string \<Rightarrow> string list" where
  "split_max c 0 s = [s]"
| "split_max c (Suc n) [] = [[]]"
| "split_max c (Suc n) (x # xs) =
     (if x = c then [] # split_max c n xs
      else (case split_max c (Suc n) xs of [] \<Rightarrow> [[x]] | w # ws \<Rightarrow> (x # w) # ws))"

text \<open>\<open>s.startswith(p)\<close>, \<open>s.endswith(p)\<close> and \<open>p in s\<close>.\<close>

fun startswith :: "string \<Rightarrow> string \<Rightarrow> bool" where
  "startswith s [] = True"
| "startswith [] (p # ps) = False"
| "startswith (x # xs) (p # ps) = (x = p \<and> startswith xs ps)"

definition endswith :: "string \<Rightarrow> string \<Rightarrow> bool" where
  "endswith s p = startswith (rev s) (rev p)"

fun contains :: "string \<Rightarrow> string \<Rightarrow> bool" where
  "contains [] p = (p = [])"
| "contains (x # xs) p = (startswith (x # xs) p \<or> contains xs p)"

subsection \<open>Parsing and printing integers\<close>

text \<open>
  \<open>int(s)\<close> in base ten: surrounding white space is dropped, one sign is allowed, and
  the digits may be grouped by single underscores. \<open>None\<close> stands for \<open>ValueError\<close>.
  The bound that recent interpreters put on the number of digits is not modelled.
\<close>

fun int_digits_ok :: "string \<Rightarrow> bool" where
  "int_digits_ok [] = False"
| "int_digits_ok [c] = isdigit c"
| "int_digits_ok (c # d # r) =
     (isdigit c \<and> (if d = CHR ''_'' then int_digits_ok r else int_digits_ok (d # r)))"

definition digit_val :: "char \<Rightarrow> nat" where
  "digit_val c = (case map_of (zip ''0123456789'' [0, 1, 2, 3, 4, 5, 6, 7, 8, 9]) c of
                    None \<Rightarrow> 0 | Some d \<Rightarrow> d)"

definition digits_val :: "string \<Rightarrow> nat" where
  "digits_val s = foldl (\<lambda>a c. 10 * a + digit_val c) 0 (filter (\<lambda>c. c \<noteq> CHR ''_'') s)"

definition py_int :: "string \<Rightarrow> int option" where
  "py_int s =
     (case strip s of
        [] \<Rightarrow> None
      | c # r \<Rightarrow>
          if c = CHR ''-'' then (if int_digits_ok r then Some (- int (digits_val r)) else None)
          else if c = CHR ''+'' then (if int_digits_ok r then Some (int (digits_val r)) else None)
          else if int_digits_ok (c # r) then Some (int (digits_val (c # r)))
          else None)"

fun str_nat :: "nat \<Rightarrow> string" where
  "str_nat n =
     (if n < 10 then [''0123456789'' ! n]
      else str_nat (n div 10) @ [''0123456789'' ! (n mod 10)])"

declare str_nat.simps [simp del]

definition str_int :: "int \<Rightarrow> string" where
  "str_int i = (if i < 0 then CHR ''-'' # str_nat (nat (- i)) else str_nat (nat i))"

text \<open>\<open>str(v)\<close> of a value.\<close>

definition py_str :: "float_ops \<Rightarrow> py_value \<Rightarrow> string" where
  "py_str F v =
     (case v of
        VInt i \<Rightarrow> str_int i
      | VFloat q \<Rightarrow> float_str F q
      | VStr s \<Rightarrow> s
      | VNone \<Rightarrow> ''None'')"

subsection \<open>Type conversion\<close>

text \<open>
  \<open>_try_convert_type\<close>: a value that is not a string is returned as it is; a string is
  tried as an \<open>int\<close>, then as a \<open>float\<close>, and kept when both raise \<open>ValueError\<close>.
\<close>

definition try_convert_type :: "float_ops \<Rightarrow> py_value \<Rightarrow> py_value" where
  "try_convert_type F v =
     (case v of
        VStr s \<Rightarrow>
          (case py_int s of
             Some i \<Rightarrow> VInt i
           | None \<Rightarrow> (case float_parse F s of Some q \<Rightarrow> VFloat q | None \<Rightarrow> VStr s))
      | _ \<Rightarrow> v)"

definition preprocess_data_types :: "float_ops \<Rightarrow> dataset \<Rightarrow> dataset" where
  "preprocess_data_types F data =
     (if data = [] then []
      else map (\<lambda>row. map (\<lambda>(key, v). (key, try_convert_type F v)) row) data)"

subsection \<open>Dictionaries\<close>

text \<open>
  A Python \<open>dict\<close> keeps its keys in insertion order, so a record is an association
  list with distinct keys. \<open>d[k] = v\<close> overwrites in place when \<open>k\<close> is a key and
  appends at the end otherwise; \<open>d.pop(k)\<close> removes the entry.
\<close>

definition dict_contains :: "('k \<times> 'v) list \<Rightarrow> 'k \<Rightarrow> bool" where
  "dict_contains d k = (map_of d k \<noteq> None)"

fun dict_set :: "('k \<times> 'v) list \<Rightarrow> 'k \<Rightarrow> 'v \<Rightarrow> ('k \<times> 'v) list" where
  "dict_set [] k v = [(k, v)]"
| "dict_set (p # d) k v = (if fst p = k then (k, v) # d else p # dict_set d k v)"

definition dict_pop :: "('k \<times> 'v) list \<Rightarrow> 'k \<Rightarrow> ('k \<times> 'v) list" where
  "dict_pop d k = filter (\<lambda>p. fst p \<noteq> k) d"

text \<open>\<open>row.get(col)\<close>, with its default \<open>None\<close>, and \<open>row.get(col, default)\<close>.\<close>

definition row_get_default :: "row \<Rightarrow> string \<Rightarrow> py_value \<Rightarrow> py_value" where
  "row_get_default r col dflt = (case map_of r col of None \<Rightarrow> dflt | Some v \<Rightarrow> v)"

definition row_get :: "row \<Rightarrow> string \<Rightarrow> py_value" where
  "row_get r col = row_get_default r col VNone"

subsection \<open>Comparison of values\<close>

text \<open>
  Numbers compare with numbers by value, strings with strings by code point. An
  ordering comparison of any other pair raises \<open>TypeError\<close>; \<open>==\<close> never raises and is
  false across kinds.
\<close>

definition num_val :: "py_value \<Rightarrow> rat option" where
  "num_val v = (case v of VInt i \<Rightarrow> Some (of_int i) | VFloat q \<Rightarrow> Some q | _ \<Rightarrow> None)"

definition py_compare ::
  "(rat \<Rightarrow> rat \<Rightarrow> bool) \<Rightarrow> (string \<Rightarrow> string \<Rightarrow> bool) \<Rightarrow> py_value \<Rightarrow> py_value \<Rightarrow> py_error + bool"
where
  "py_compare on_num on_str a b =
     (case (num_val a, num_val b) of
        (Some x, Some y) \<Rightarrow> Inr (on_num x y)
      | _ \<Rightarrow> (case (a, b) of (VStr s, VStr t) \<Rightarrow> Inr (on_str s t) | _ \<Rightarrow> Inl TypeError))"

definition py_lt :: "py_value \<Rightarrow> py_value \<Rightarrow> py_error + bool" where
  "py_lt = py_compare (\<lambda>x y. x < y) (\<lambda>s t. s < t)"

definition py_gt :: "py_value \<Rightarrow> py_value \<Rightarrow> py_error + bool" where
  "py_gt = py_compare (\<lambda>x y. y < x) (\<lambda>s t. t < s)"

definition py_le :: "py_value \<Rightarrow> py_value \<Rightarrow> py_error + bool" where
  "py_le = py_compare (\<lambda>x y. x \<le> y) (\<lambda>s t. s \<le> t)"

definition py_ge :: "py_value \<Rightarrow> py_value \<Rightarrow> py_error + bool" where
  "py_ge = py_compare (\<lambda>x y. y \<le> x) (\<lambda>s t. t \<le> s)"

definition py_eq :: "py_value \<Rightarrow> py_value \<Rightarrow> bool" where
  "py_eq a b =
     (case (num_val a, num_val b) of
        (Some x, Some y) \<Rightarrow> x = y
      | _ \<Rightarrow> (case (a, b) of
                (VStr s, VStr t) \<Rightarrow> s = t
              | (VNone, VNone) \<Rightarrow> True
              | _ \<Rightarrow> False))"

definition is_str :: "py_value \<Rightarrow> bool" where
  "is_str v = (case v of VStr s \<Rightarrow> True | _ \<Rightarrow> False)"

definition is_number :: "py_value \<Rightarrow> bool" where
  "is_number v = (num_val v \<noteq> None)"

section \<open>The transformations\<close>

subsection \<open>Select\<close>

definition select_row :: "string list \<Rightarrow> row \<Rightarrow> row" where
  "select_row columns_to_keep original_row =
     foldl (\<lambda>new_row col. case map_of original_row col of
                              None \<Rightarrow> new_row
                            | Some v \<Rightarrow> dict_set new_row col v)
           [] columns_to_keep"

definition transform_select_columns :: "dataset \<Rightarrow> string list \<Rightarrow> dataset" where
  "transform_select_columns data columns_to_keep =
     (if data = [] then []
      else if columns_to_keep = [] then data
      else filter (\<lambda>new_row. new_row \<noteq> []) (map (select_row columns_to_keep) data))"

subsection \<open>Filter\<close>

text \<open>
  The body of the \<open>try\<close> for one row: the flag \<open>match\<close>. Only the comparison of the
  operator given is evaluated (the \<open>and\<close> of Python is short-circuit); when it raises
  \<open>TypeError\<close> the handler leaves \<open>match\<close> false.
\<close>

definition caught :: "py_error + bool \<Rightarrow> bool" where
  "caught r = (case r of Inl e \<Rightarrow> False | Inr b \<Rightarrow> b)"

definition filter_match :: "string \<Rightarrow> py_value \<Rightarrow> py_value \<Rightarrow> bool" where
  "filter_match operator actual_value_in_row comp_value =
     (if operator = ''>'' then caught (py_gt actual_value_in_row comp_value)
      else if operator = ''<'' then caught (py_lt actual_value_in_row comp_value)
      else if operator = ''>='' then caught (py_ge actual_value_in_row comp_value)
      else if operator = ''<='' then caught (py_le actual_value_in_row comp_value)
      else if operator = ''=='' then py_eq actual_value_in_row comp_value
      else if operator = ''!='' then \<not> py_eq actual_value_in_row comp_value
      else if operator = ''contains'' then
        (case (actual_value_in_row, comp_value) of
           (VStr s, VStr t) \<Rightarrow> contains s t | _ \<Rightarrow> False)
      else if operator = ''startswith'' then
        (case (actual_value_in_row, comp_value) of
           (VStr s, VStr t) \<Rightarrow> startswith s t | _ \<Rightarrow> False)
      else if operator = ''endswith'' then
        (case (actual_value_in_row, comp_value) of
           (VStr s, VStr t) \<Rightarrow> endswith s t | _ \<Rightarrow> False)
      else False)"

definition transform_filter_rows ::
  "float_ops \<Rightarrow> dataset \<Rightarrow> string \<Rightarrow> string \<Rightarrow> py_value \<Rightarrow> dataset"
where
  "transform_filter_rows F data column_name operator value_to_compare =
     (if data = [] then []
      else
        let comp_value = try_convert_type F value_to_compare
        in filter (\<lambda>row. case map_of row column_name of
                            None \<Rightarrow> False
                          | Some actual_value_in_row \<Rightarrow>
                              filter_match operator actual_value_in_row comp_value)
                  data)"

subsection \<open>Rename\<close>

text \<open>
  One pass of the inner loop, \<open>new_row[new_name] = new_row.pop(old_name)\<close> when
  \<open>old_name\<close> is a key; the rename map is a \<open>dict\<close>, read in its insertion order.
\<close>

definition rename_step :: "row \<Rightarrow> string \<times> string \<Rightarrow> row" where
  "rename_step new_row p =
     (case map_of new_row (fst p) of
        None \<Rightarrow> new_row
      | Some v \<Rightarrow> dict_set (dict_pop new_row (fst p)) (snd p) v)"

definition rename_row :: "(string \<times> string) list \<Rightarrow> row \<Rightarrow> row" where
  "rename_row rename_map original_row = foldl rename_step original_row rename_map"

definition transform_rename_columns :: "dataset \<Rightarrow> (string \<times> string) list \<Rightarrow> dataset" where
  "transform_rename_columns data rename_map =
     (if data = [] \<or> rename_map = [] then data
      else map (rename_row rename_map) data)"

subsection \<open>Sort\<close>

text \<open>
  The key of a row is the tuple \<open>(row.get(col) is None, row.get(col))\<close>. Tuples are
  compared at the first position where they are not \<open>==\<close>, so the second components are
  ordered only when the first ones agree and the values differ; that comparison may raise
  \<open>TypeError\<close>.
\<close>

definition tuple_lt :: "bool \<times> py_value \<Rightarrow> bool \<times> py_value \<Rightarrow> py_error + bool" where
  "tuple_lt a b =
     (if fst a \<noteq> fst b then Inr (fst a < fst b)
      else if \<not> py_eq (snd a) (snd b) then py_lt (snd a) (snd b)
      else Inr False)"

definition key_lt :: "('a \<Rightarrow> py_value) \<Rightarrow> 'a \<Rightarrow> 'a \<Rightarrow> py_error + bool" where
  "key_lt get a b = tuple_lt (get a = VNone, get a) (get b = VNone, get b)"

text \<open>
  \<open>list.sort\<close> is a stable sort that only asks \<open><\<close> of the keys, and an exception of a
  comparison leaves it. The model is the stable insertion sort: an element goes before
  the first element that is not smaller than it. With \<open>reverse=True\<close> the list is
  reversed, sorted, and reversed again, which keeps equal elements in their order.
\<close>

fun insert_sorted :: "('a \<Rightarrow> 'a \<Rightarrow> py_error + bool) \<Rightarrow> 'a \<Rightarrow> 'a list \<Rightarrow> py_error + 'a list" where
  "insert_sorted lt x [] = Inr [x]"
| "insert_sorted lt x (y # ys) =
     (case lt y x of
        Inl e \<Rightarrow> Inl e
      | Inr True \<Rightarrow> (case insert_sorted lt x ys of Inl e \<Rightarrow> Inl e | Inr zs \<Rightarrow> Inr (y # zs))
      | Inr False \<Rightarrow> Inr (x # y # ys))"

fun insertion_sort :: "('a \<Rightarrow> 'a \<Rightarrow> py_error + bool) \<Rightarrow> 'a list \<Rightarrow> py_error + 'a list" where
  "insertion_sort lt [] = Inr []"
| "insertion_sort lt (x # xs) =
     (case insertion_sort lt xs of Inl e \<Rightarrow> Inl e | Inr ys \<Rightarrow> insert_sorted lt x ys)"

definition list_sort :: "('a \<Rightarrow> py_value) \<Rightarrow> bool \<Rightarrow> 'a list \<Rightarrow> py_error + 'a list" where
  "list_sort get reverse_order xs =
     (if reverse_order then
        (case insertion_sort (key_lt get) (rev xs) of Inl e \<Rightarrow> Inl e | Inr ys \<Rightarrow> Inr (rev ys))
      else insertion_sort (key_lt get) xs)"

text \<open>
  The loop over \<open>reversed(sort_keys)\<close>; a key is a pair \<open>(column, order)\<close>, as the
  caller builds it, and \<open>get x col\<close> stands for \<open>row.get(col)\<close>.
\<close>

fun sort_passes ::
  "('a \<Rightarrow> string \<Rightarrow> py_value) \<Rightarrow> (string \<times> string) list \<Rightarrow> 'a list \<Rightarrow> py_error + 'a list"
where
  "sort_passes get [] current_data = Inr current_data"
| "sort_passes get (key_info # ks) current_data =
     (case list_sort (\<lambda>x. get x (fst key_info)) (lower (snd key_info) = ''desc'') current_data of
        Inl e \<Rightarrow> Inl e
      | Inr sorted_data \<Rightarrow> sort_passes get ks sorted_data)"

definition transform_sort_data :: "dataset \<Rightarrow> (string \<times> string) list \<Rightarrow> py_error + dataset" where
  "transform_sort_data data sort_keys =
     (if data = [] \<or> sort_keys = [] then Inr data
      else sort_passes row_get (rev sort_keys) data)"

subsection \<open>Add or modify a column\<close>

text \<open>
  The two tests on \<open>expression.split('+')[1].strip()\<close>, the text between the first and
  the second \<open>+\<close>: the heuristic of the first branch (no digit in it, and it does not
  start with a double quote), and the test of the second branch (some digit in it).
\<close>

definition plus_operand :: "string \<Rightarrow> string" where
  "plus_operand expression = strip (split_chr (CHR ''+'') expression ! 1)"

definition is_concat_expression :: "string \<Rightarrow> bool" where
  "is_concat_expression expression =
     (if CHR ''+'' \<in> set expression
      then \<not> list_ex isdigit (plus_operand expression)
           \<and> \<not> startswith (plus_operand expression) [CHR 0x22]
      else False)"

definition is_arith_expression :: "string \<Rightarrow> bool" where
  "is_arith_expression expression =
     (CHR ''*'' \<in> set expression
      \<or> (if CHR ''+'' \<in> set expression then list_ex isdigit (plus_operand expression) else False))"

definition is_quoted :: "string \<Rightarrow> bool" where
  "is_quoted expression =
     ((startswith expression [CHR 0x22] \<and> endswith expression [CHR 0x22])
      \<or> (startswith expression [CHR 0x27] \<and> endswith expression [CHR 0x27]))"

text \<open>
  \<open>col_val * literal_val\<close> and \<open>col_val + literal_val\<close> on numbers: two \<open>int\<close>s give
  an \<open>int\<close>; with a \<open>float\<close> operand the other operand is converted, which raises
  \<open>OverflowError\<close> for an \<open>int\<close> beyond the range of a double.
\<close>

definition py_arith :: "float_ops \<Rightarrow> char \<Rightarrow> py_value \<Rightarrow> py_value \<Rightarrow> py_error + py_value" where
  "py_arith F op_char a b =
     (let on_float = (if op_char = CHR ''*'' then float_mul F else float_add F)
      in case (a, b) of
           (VInt i, VInt j) \<Rightarrow> Inr (VInt (if op_char = CHR ''*'' then i * j else i + j))
         | (VInt i, VFloat y) \<Rightarrow>
             (case float_of_int F i of
                None \<Rightarrow> Inl OverflowError | Some x \<Rightarrow> Inr (VFloat (on_float x y)))
         | (VFloat x, VInt j) \<Rightarrow>
             (case float_of_int F j of
                None \<Rightarrow> Inl OverflowError | Some y \<Rightarrow> Inr (VFloat (on_float x y)))
         | (VFloat x, VFloat y) \<Rightarrow> Inr (VFloat (on_float x y))
         | _ \<Rightarrow> Inl TypeError)"

text \<open>
  One side of a concatenation:
  \<open>str(new_row.get(e, e if not e.isalnum() else ""))\<close>.
\<close>

definition concat_operand :: "float_ops \<Rightarrow> row \<Rightarrow> string \<Rightarrow> string" where
  "concat_operand F new_row e =
     py_str F (row_get_default new_row e (VStr (if \<not> isalnum e then e else [])))"

text \<open>
  The body of the loop for one row. The handler \<open>except Exception\<close> stores \<open>None\<close>;
  the only statement of the \<open>try\<close> that can raise is the arithmetic.
\<close>

definition add_modify_row :: "float_ops \<Rightarrow> string \<Rightarrow> string \<Rightarrow> row \<Rightarrow> row" where
  "add_modify_row F new_col_name expression original_row =
     (let new_row = original_row in
      if is_concat_expression expression then
        (case map strip (split_max (CHR ''+'') 1 expression) of
           [val1_expr, val2_expr] \<Rightarrow>
             dict_set new_row new_col_name
               (VStr (concat_operand F new_row val1_expr @ concat_operand F new_row val2_expr))
         | _ \<Rightarrow> dict_set new_row new_col_name (try_convert_type F (VStr expression)))
      else if is_arith_expression expression then
        (let op_char = (if CHR ''*'' \<in> set expression then CHR ''*'' else CHR ''+'')
         in case map strip (split_max op_char 1 expression) of
              [col_operand_name, literal_operand_str] \<Rightarrow>
                (case map_of new_row col_operand_name of
                   Some cell \<Rightarrow>
                     (let col_val = try_convert_type F cell;
                          literal_val = try_convert_type F (VStr literal_operand_str)
                      in if is_number col_val \<and> is_number literal_val then
                           (case py_arith F op_char col_val literal_val of
                              Inr v \<Rightarrow> dict_set new_row new_col_name v
                            | Inl e \<Rightarrow> dict_set new_row new_col_name VNone)
                         else dict_set new_row new_col_name VNone)
                 | None \<Rightarrow> dict_set new_row new_col_name VNone)
            | _ \<Rightarrow> dict_set new_row new_col_name (try_convert_type F (VStr expression)))
      else if is_quoted expression then
        dict_set new_row new_col_name (VStr (butlast (tl expression)))
      else dict_set new_row new_col_name (try_convert_type F (VStr expression)))"

definition transform_add_modify_column ::
  "float_ops \<Rightarrow> dataset \<Rightarrow> string \<Rightarrow> string \<Rightarrow> dataset"
where
  "transform_add_modify_column F data new_col_name expression =
     (if data = [] then [] else map (add_modify_row F new_col_name expression) data)"

section \<open>The pipeline of main\<close>

text \<open>
  \<open>a, b = s.split(c, 1)\<close> raises \<open>ValueError\<close> when \<open>c\<close> does not occur in \<open>s\<close>.
\<close>

definition split_pair :: "char \<Rightarrow> string \<Rightarrow> py_error + string \<times> string" where
  "split_pair c s = (case split_max c 1 s of [a, b] \<Rightarrow> Inr (a, b) | _ \<Rightarrow> Inl ValueError)"

fun split_pairs :: "char \<Rightarrow> string list \<Rightarrow> py_error + (string \<times> string) list" where
  "split_pairs c [] = Inr []"
| "split_pairs c (p # ps) =
     (case split_pair c p of
        Inl e \<Rightarrow> Inl e
      | Inr ab \<Rightarrow> (case split_pairs c ps of Inl e \<Rightarrow> Inl e | Inr rest \<Rightarrow> Inr (ab # rest)))"

text \<open>
  One turn of the loop over \<open>args.transform\<close>: the new value of \<open>current_data\<close>. Both
  handlers of the \<open>try\<close> only log, so an exception leaves \<open>current_data\<close> as it was.
\<close>

definition apply_transform :: "float_ops \<Rightarrow> dataset \<Rightarrow> string \<Rightarrow> dataset" where
  "apply_transform F current_data trans_str =
     (case split_pair (CHR '':'') trans_str of
        Inl e \<Rightarrow> current_data
      | Inr (action_str, params_str) \<Rightarrow>
          (let action = lower (strip action_str) in
           if action = ''select'' then
             transform_select_columns current_data (map strip (split_chr (CHR '','') params_str))
           else if action = ''filter'' then
             (case map strip (split_max (CHR '','') 2 params_str) of
                [col, op, val] \<Rightarrow> transform_filter_rows F current_data col op (VStr val)
              | _ \<Rightarrow> current_data)
           else if action = ''rename'' then
             (case split_pairs (CHR '':'') (split_chr (CHR '','') params_str) of
                Inl e \<Rightarrow> current_data
              | Inr pairs \<Rightarrow>
                  transform_rename_columns current_data
                    (foldl (\<lambda>rename_map (old, new). dict_set rename_map (strip old) (strip new))
                       [] pairs))
           else if action = ''sort'' then
             (case split_pairs (CHR '':'') (split_chr (CHR '','') params_str) of
                Inl e \<Rightarrow> current_data
              | Inr pairs \<Rightarrow>
                  (case transform_sort_data current_data
                          (map (\<lambda>(col, order). (strip col, lower (strip order))) pairs) of
                     Inl e \<Rightarrow> current_data
                   | Inr sorted_data \<Rightarrow> sorted_data))
           else if action = ''addcol'' then
             (if CHR ''='' \<notin> set params_str then current_data
              else (case split_pair (CHR ''='') params_str of
                      Inl e \<Rightarrow> current_data
                    | Inr (new_col_name, expression) \<Rightarrow>
                        transform_add_modify_column F current_data
                          (strip new_col_name) (strip expression)))
           else current_data))"


text \<open>
  An instance of the floating-point operations for running examples: it reads plain
  decimal literals \<open>digits.digits\<close> with an optional sign, and computes without
  rounding. It does not print floats (the examples print none).
\<close>

definition decimal_parse :: "string \<Rightarrow> rat option" where
  "decimal_parse s =
     (let t = strip s;
          neg = (t \<noteq> [] \<and> hd t = CHR ''-'');
          u = (if t \<noteq> [] \<and> (hd t = CHR ''-'' \<or> hd t = CHR ''+'') then tl t else t)
      in case split_chr (CHR ''.'') u of
           [a, b] \<Rightarrow>
             if a \<noteq> [] \<and> b \<noteq> [] \<and> list_all isdigit a \<and> list_all isdigit b then
               (let q = of_nat (digits_val a) + of_nat (digits_val b) / 10 ^ length b
                in Some (if neg then - q else q))
             else None
         | _ \<Rightarrow> None)"

definition exact_ops :: float_ops where
  "exact_ops =
     \<lparr> float_parse = decimal_parse,
       float_of_int = (\<lambda>i. Some (of_int i)),
       float_mul = (\<lambda>x y. x * y),
       float_add = (\<lambda>x y. x + y),
       float_str = (\<lambda>q. ''<float>'') \<rparr>"

section \<open>Notions of the specification\<close>

text \<open>
  The kinds of values that the specification speaks of: two values are of incompatible
  kinds when their kinds differ (a number against a string, \<open>None\<close> against either).
\<close>

datatype kind = Numeric | Text | Null

definition kind_of :: "py_value \<Rightarrow> kind" where
  "kind_of v = (case v of VInt i \<Rightarrow> Numeric | VFloat q \<Rightarrow> Numeric | VStr s \<Rightarrow> Text | VNone \<Rightarrow> Null)"

text \<open>
  Malformed transform strings, after the grammar \<open>action:parameters\<close> of the
  specification: no \<open>:\<close> between action and parameters, an action that is none of the
  five, a filter with fewer than three parts between commas, a pair of a rename or of a
  sort without its \<open>:\<close>, an addcol without \<open>=\<close>.
\<close>

definition spec_action :: "string \<Rightarrow> string" where
  "spec_action s = lower (strip (takeWhile (\<lambda>c. c \<noteq> CHR '':'') s))"

definition spec_params :: "string \<Rightarrow> string" where
  "spec_params s = tl (dropWhile (\<lambda>c. c \<noteq> CHR '':'') s)"

definition malformed_spec :: "string \<Rightarrow> bool" where
  "malformed_spec s =
     (CHR '':'' \<notin> set s
      \<or> spec_action s \<notin> {''select'', ''filter'', ''rename'', ''sort'', ''addcol''}
      \<or> (spec_action s = ''filter''
           \<and> length (filter (\<lambda>c. c = CHR '','') (spec_params s)) < 2)
      \<or> (spec_action s \<in> {''rename'', ''sort''}
           \<and> list_ex (\<lambda>pair. CHR '':'' \<notin> set pair) (split_chr (CHR '','') (spec_params s)))
      \<or> (spec_action s = ''addcol'' \<and> CHR ''='' \<notin> set (spec_params s)))"

text \<open>
  The order of the sort keys, read off the comparison of key tuples: \<open>key_less a b\<close>
  when the tuple of \<open>a\<close> is smaller than the tuple of \<open>b\<close>. A row may stand before
  another, for a list of keys, when at the first key on which the two do not compare
  equal it is on the side that the direction of the key asks for. Two rows have the
  same keys when they compare equal on every key.
\<close>

definition key_less :: "py_value \<Rightarrow> py_value \<Rightarrow> bool" where
  "key_less a b = (tuple_lt (a = VNone, a) (b = VNone, b) = Inr True)"


definition same_keys :: "(string \<times> string) list \<Rightarrow> row \<Rightarrow> row \<Rightarrow> bool" where
  "same_keys ks r x = list_all (\<lambda>k. py_eq (row_get x (fst k)) (row_get r (fst k))) ks"

section \<open>Properties\<close>

subsection \<open>Type conversion\<close>


text \<open>The examples of the specification, with the exact instance of the float operations.\<close>

lemma try_convert_type_examples:
  "try_convert_type exact_ops (VStr ''42'') = VInt 42"
  "try_convert_type exact_ops (VStr ''3.14'') = VFloat (314 / 100)"
  "try_convert_type exact_ops (VStr ''abc'') = VStr ''abc''"
  by code_simp+

subsection \<open>Dictionaries\<close>

lemma dict_pop_split:
  assumes "distinct (map fst (pre @ (k, v) # post))"
  shows "dict_pop (pre @ (k, v) # post) k = pre @ post"
proof -
  have "filter (\<lambda>p. fst p \<noteq> k) d = d" if "k \<notin> fst ` set d" for d :: "('a \<times> 'b) list"
    using that by (auto simp: filter_id_conv)
  with assms show ?thesis
    by (auto simp: dict_pop_def)
qed

lemma dict_set_absent: "k \<notin> fst ` set d \<Longrightarrow> dict_set d k v = d @ [(k, v)]"
  by (induction d) auto

lemma dict_set_present:
  "distinct (map fst d) \<Longrightarrow> k \<in> fst ` set d \<Longrightarrow>
   dict_set d k v = map (\<lambda>p. if fst p = k then (k, v) else p) d"
proof (induction d)
  case Nil
  then show ?case by simp
next
  case (Cons p d)
  show ?case
  proof (cases "fst p = k")
    case True
    with Cons.prems have "k \<notin> fst ` set d" by auto
    then have "map (\<lambda>p. if fst p = k then (k, v) else p) d = d"
      by (induction d) auto
    with True show ?thesis by simp
  next
    case False
    with Cons show ?thesis by auto
  qed
qed

lemma map_of_dict_set: "map_of (dict_set d k v) k = Some v"
  by (induction d) auto

subsection \<open>Rename\<close>

text \<open>
  C3, as the specification states it, fails: renaming \<open>A\<close> to \<open>X\<close> in the record
  \<open>{A: 1, B: 2}\<close> gives \<open>{B: 2, X: 1}\<close>. The value is kept, but the field leaves the
  first slot and \<open>X\<close> is the last field.
\<close>

theorem rename_position_counterexample:
  "transform_rename_columns [[(''A'', VInt 1), (''B'', VInt 2)]] [(''A'', ''X'')]
     = [[(''B'', VInt 2), (''X'', VInt 1)]]"
  by (simp add: transform_rename_columns_def rename_row_def rename_step_def dict_pop_def)

text \<open>
  C3, amended. Applying a pair \<open>(old, new)\<close> to a record that holds \<open>old\<close> gives a
  record that holds the value of \<open>old\<close> under \<open>new\<close>. The field \<open>old\<close> is removed
  from its slot; the value is appended as the last field when \<open>new\<close> is not the name of
  another field, and it replaces the value of \<open>new\<close>, in the slot of \<open>new\<close>, when it is.
\<close>

theorem rename_step_moves_field:
  assumes "distinct (map fst (pre @ (old, v) # post))"
  shows "map_of (rename_step (pre @ (old, v) # post) (old, new)) new = Some v
       \<and> (new \<notin> fst ` set (pre @ post) \<longrightarrow>
            rename_step (pre @ (old, v) # post) (old, new) = pre @ post @ [(new, v)])
       \<and> (new \<in> fst ` set (pre @ post) \<longrightarrow>
            rename_step (pre @ (old, v) # post) (old, new)
              = map (\<lambda>p. if fst p = new then (new, v) else p) (pre @ post))"
proof -
  let ?r = "pre @ (old, v) # post"
  from assms have m: "map_of ?r old = Some v"
    by (intro map_of_is_SomeI) auto
  from assms have d: "distinct (map fst (pre @ post))" by auto
  have s: "rename_step ?r (old, new) = dict_set (pre @ post) new v"
    using m dict_pop_split[OF assms] by (simp add: rename_step_def)
  show ?thesis
    unfolding s using dict_set_absent[of new "pre @ post" v] dict_set_present[OF d, of new v]
    by (simp add: map_of_dict_set)
qed

theorem rename_step_moves_field_witness:
  "distinct (map fst ([(''A'', VInt 1)] @ (''B'', VInt 2) # [(''C'', VInt 3)]))
   \<and> rename_step [(''A'', VInt 1), (''B'', VInt 2), (''C'', VInt 3)] (''B'', ''X'')
       = [(''A'', VInt 1), (''C'', VInt 3), (''X'', VInt 2)]
   \<and> rename_step [(''A'', VInt 1), (''B'', VInt 2), (''C'', VInt 3)] (''B'', ''A'')
       = [(''A'', VInt 2), (''C'', VInt 3)]"
proof -
  have d: "distinct (map fst ([(''A'', VInt 1)] @ (''B'', VInt 2) # [(''C'', VInt 3)]))"
    by simp
  show ?thesis
    using d rename_step_moves_field[OF d, of "''X''"] rename_step_moves_field[OF d, of "''A''"]
    by simp
qed

subsection \<open>Filter\<close>

text \<open>
  C2, as the specification states it, fails for \<open>!=\<close>: a record whose field is the
  string \<open>abc\<close> is kept by the filter \<open>A != 5\<close>, whose literal is coerced to a number.
\<close>

theorem filter_mismatch_counterexample:
  "transform_filter_rows exact_ops [[(''A'', VStr ''abc'')]] ''A'' ''!='' (VStr ''5'')
     = [[(''A'', VStr ''abc'')]]"
  by code_simp

lemma py_compare_mismatch:
  "kind_of a \<noteq> kind_of c \<Longrightarrow> py_compare f g a c = Inl TypeError"
  by (cases a; cases c) (simp_all add: py_compare_def kind_of_def num_val_def)

lemma py_eq_mismatch: "kind_of a \<noteq> kind_of c \<Longrightarrow> \<not> py_eq a c"
  by (cases a; cases c) (simp_all add: py_eq_def kind_of_def num_val_def)

lemma filter_match_mismatch:
  assumes "kind_of a \<noteq> kind_of c"
  shows "op \<in> {''>'', ''<'', ''>='', ''<='', ''==''} \<Longrightarrow> \<not> filter_match op a c"
    and "filter_match ''!='' a c"
  using py_compare_mismatch[OF assms] py_eq_mismatch[OF assms]
  by (auto simp: filter_match_def caught_def py_gt_def py_lt_def py_ge_def py_le_def)

text \<open>
  C2, amended. When the value of the field and the coerced literal are of incompatible
  kinds, a filter with one of the operators \<open>>\<close>, \<open><\<close>, \<open>>=\<close>, \<open><=\<close>, \<open>==\<close> leaves the
  record out, and a filter with \<open>!=\<close> keeps it. The filter returns a dataset in every
  case: no error reaches the caller.
\<close>

theorem filter_kind_mismatch:
  assumes "map_of row column_name = Some a"
      and "kind_of a \<noteq> kind_of (try_convert_type F literal)"
  shows "(op \<in> {''>'', ''<'', ''>='', ''<='', ''==''} \<longrightarrow>
            row \<notin> set (transform_filter_rows F data column_name op literal))
       \<and> (row \<in> set data \<longrightarrow>
            row \<in> set (transform_filter_rows F data column_name ''!='' literal))"
  using assms(1) filter_match_mismatch[OF assms(2)]
  by (auto simp: transform_filter_rows_def)

theorem filter_kind_mismatch_witness:
  "map_of [(''A'', VStr ''abc'')] ''A'' = Some (VStr ''abc'')
   \<and> kind_of (VStr ''abc'') \<noteq> kind_of (try_convert_type exact_ops (VStr ''5''))
   \<and> [(''A'', VStr ''abc'')]
        \<notin> set (transform_filter_rows exact_ops [[(''A'', VStr ''abc'')]] ''A'' ''>'' (VStr ''5''))
   \<and> [(''A'', VStr ''abc'')]
        \<in> set (transform_filter_rows exact_ops [[(''A'', VStr ''abc'')]] ''A'' ''!='' (VStr ''5''))"
proof -
  have c: "try_convert_type exact_ops (VStr ''5'') = VInt 5" by code_simp
  have m: "map_of [(''A'', VStr ''abc'')] ''A'' = Some (VStr ''abc'')" by simp
  have k: "kind_of (VStr ''abc'') \<noteq> kind_of (try_convert_type exact_ops (VStr ''5''))"
    by (simp add: c kind_of_def)
  show ?thesis
    using filter_kind_mismatch[OF m k, of "''>''" "[[(''A'', VStr ''abc'')]]"] m k by simp
qed

subsection \<open>Splitting strings\<close>


lemma split_max_first: "c \<notin> set l \<Longrightarrow> split_max c (Suc n) (l @ c # r) = l # split_max c n r"
  by (induction l) auto

lemma split_max_once: "c \<notin> set l \<Longrightarrow> split_max c (Suc 0) (l @ c # r) = [l, r]"
  using split_max_first[of c l 0 r] by simp

lemma split_chr_first: "c \<notin> set l \<Longrightarrow> split_chr c (l @ c # r) = l # split_chr c r"
  by (induction l) auto

lemma split_chr_nonempty: "split_chr c s \<noteq> []"
  by (induction s) (simp_all split: list.splits)

lemma hd_split_chr: "hd (split_chr c s) = takeWhile (\<lambda>x. x \<noteq> c) s"
proof (induction s)
  case Nil
  then show ?case by simp
next
  case (Cons x xs)
  obtain w ws where w: "split_chr c xs = w # ws"
    using split_chr_nonempty[of c xs] by (cases "split_chr c xs") auto
  with Cons show ?case by auto
qed

lemma plus_operand_split:
  assumes "CHR ''+'' \<notin> set l"
  shows "plus_operand (l @ CHR ''+'' # r) = strip (takeWhile (\<lambda>x. x \<noteq> CHR ''+'') r)"
proof -
  have "split_chr (CHR ''+'') (l @ CHR ''+'' # r) ! 1 = hd (split_chr (CHR ''+'') r)"
    using split_chr_first[OF assms, of r] split_chr_nonempty[of "CHR ''+''" r]
    by (simp add: hd_conv_nth)
  then show ?thesis by (simp add: plus_operand_def hd_split_chr)
qed

lemma startswith_hd: "startswith (x # xs) [y] = (x = y)"
  by simp


subsection \<open>Add or modify a column: quoted literals\<close>




subsection \<open>Add or modify a column: concatenation\<close>




subsection \<open>Add or modify a column: arithmetic\<close>

text \<open>
  C7, as the specification states it, fails: the value of the field is coerced again
  before the test for numbers, so a field that holds the string \<open>5\<close> is not
  non-numeric for the code. \<open>A*2\<close> on \<open>{A: "5"}\<close> gives the integer 10, not \<open>None\<close>.
\<close>

theorem arith_string_field_counterexample:
  "add_modify_row exact_ops ''C'' ''A*2'' [(''A'', VStr ''5'')]
     = [(''A'', VStr ''5''), (''C'', VInt 10)]"
  by code_simp

lemma py_arith_cases:
  "(case py_arith F op_char a b of Inr v \<Rightarrow> v | Inl e \<Rightarrow> VNone) =
     (let on_float = (if op_char = CHR ''*'' then float_mul F else float_add F)
      in case (a, b) of
           (VInt i, VInt j) \<Rightarrow> VInt (if op_char = CHR ''*'' then i * j else i + j)
         | (VInt i, VFloat y) \<Rightarrow>
             (case float_of_int F i of None \<Rightarrow> VNone | Some x \<Rightarrow> VFloat (on_float x y))
         | (VFloat x, VInt j) \<Rightarrow>
             (case float_of_int F j of None \<Rightarrow> VNone | Some y \<Rightarrow> VFloat (on_float x y))
         | (VFloat x, VFloat y) \<Rightarrow> VFloat (on_float x y)
         | _ \<Rightarrow> VNone)"
  by (cases a; cases b) (simp_all add: py_arith_def Let_def split: option.splits)

lemma py_arith_not_num:
  "\<not> (is_number a \<and> is_number b) \<Longrightarrow> py_arith F op_char a b = Inl TypeError"
  by (cases a; cases b) (simp_all add: is_number_def num_val_def py_arith_def)

lemma add_modify_row_arith:
  assumes "op_char \<notin> set l" and "CHR ''*'' \<notin> set l"
      and "(op_char = CHR ''*'' \<and> \<not> is_concat_expression (l @ op_char # r))
         \<or> (op_char = CHR ''+'' \<and> CHR ''*'' \<notin> set r
              \<and> list_ex isdigit (strip (takeWhile (\<lambda>c. c \<noteq> CHR ''+'') r)))"
  shows "add_modify_row F new_col_name (l @ op_char # r) row =
           dict_set row new_col_name
             (case map_of row (strip l) of
                None \<Rightarrow> VNone
              | Some cell \<Rightarrow>
                  (case py_arith F op_char (try_convert_type F cell)
                          (try_convert_type F (VStr (strip r)))
                   of Inr v \<Rightarrow> v | Inl e \<Rightarrow> VNone))"
proof -
  let ?e = "l @ op_char # r"
  have c: "\<not> is_concat_expression ?e"
    using assms by (auto simp: is_concat_expression_def plus_operand_split)
  have a: "is_arith_expression ?e"
    using assms by (auto simp: is_arith_expression_def plus_operand_split)
  have o: "(if CHR ''*'' \<in> set ?e then CHR ''*'' else CHR ''+'') = op_char"
    using assms by auto
  have s: "map strip (split_max op_char (Suc 0) ?e) = [strip l, strip r]"
    using split_max_once[OF assms(1)] by simp
  show ?thesis
  proof (cases "map_of row (strip l)")
    case None
    then show ?thesis
      unfolding add_modify_row_def Let_def o using c a by (simp add: s)
  next
    case (Some cell)
    show ?thesis
    proof (cases "is_number (try_convert_type F cell) \<and> is_number (try_convert_type F (VStr (strip r)))")
      case True
      then show ?thesis
        unfolding add_modify_row_def Let_def o using c a Some
        by (simp add: s split: sum.splits)
    next
      case False
      then show ?thesis
        unfolding add_modify_row_def Let_def o using c a Some py_arith_not_num[OF False]
        by (simp add: s)
    qed
  qed
qed

text \<open>
  C7, amended. Let the expression be \<open>l*r\<close>, split at its first \<open>*\<close> and not taken as
  a concatenation, or \<open>l+r\<close>, split at its first \<open>+\<close>, without \<open>*\<close> and with a digit
  in the text of \<open>r\<close> up to its next \<open>+\<close>. The new field is \<open>None\<close> when the record
  has no field named \<open>l\<close> (stripped). Otherwise the value of the field and the text
  \<open>r\<close> are both coerced; two integers give their integer product or sum; when one
  operand is a float the other is converted and the result is the float product or sum,
  or \<open>None\<close> when the integer is too large to convert; any other pair of coerced
  operands gives \<open>None\<close>.
\<close>

theorem arith_expression_result:
  assumes "op_char \<notin> set l" and "CHR ''*'' \<notin> set l"
      and "(op_char = CHR ''*'' \<and> \<not> is_concat_expression (l @ op_char # r))
         \<or> (op_char = CHR ''+'' \<and> CHR ''*'' \<notin> set r
              \<and> list_ex isdigit (strip (takeWhile (\<lambda>c. c \<noteq> CHR ''+'') r)))"
  shows "add_modify_row F new_col_name (l @ op_char # r) row =
           dict_set row new_col_name
             (case map_of row (strip l) of
                None \<Rightarrow> VNone
              | Some cell \<Rightarrow>
                  (let on_float = (if op_char = CHR ''*'' then float_mul F else float_add F)
                   in case (try_convert_type F cell, try_convert_type F (VStr (strip r))) of
                        (VInt i, VInt j) \<Rightarrow> VInt (if op_char = CHR ''*'' then i * j else i + j)
                      | (VInt i, VFloat y) \<Rightarrow>
                          (case float_of_int F i of
                             None \<Rightarrow> VNone | Some x \<Rightarrow> VFloat (on_float x y))
                      | (VFloat x, VInt j) \<Rightarrow>
                          (case float_of_int F j of
                             None \<Rightarrow> VNone | Some y \<Rightarrow> VFloat (on_float x y))
                      | (VFloat x, VFloat y) \<Rightarrow> VFloat (on_float x y)
                      | _ \<Rightarrow> VNone))"
  using add_modify_row_arith[OF assms, of F new_col_name row]
  by (simp only: py_arith_cases)

theorem arith_expression_result_witness:
  "add_modify_row exact_ops ''Bonus'' ''Salary*0.1'' [(''Salary'', VInt 1000)]
      = [(''Salary'', VInt 1000), (''Bonus'', VFloat 100)]
   \<and> add_modify_row exact_ops ''Next'' ''Age+1'' [(''Age'', VInt 30)]
      = [(''Age'', VInt 30), (''Next'', VInt 31)]
   \<and> add_modify_row exact_ops ''Next'' ''Age+1'' [(''Name'', VStr ''Ann'')]
      = [(''Name'', VStr ''Ann''), (''Next'', VNone)]"
proof -
  have 1: "CHR ''*'' \<notin> set ''Salary''" "CHR ''+'' \<notin> set ''Age''" "CHR ''*'' \<notin> set ''Age''"
    by simp_all
  have 2: "(CHR ''*'' = CHR ''*'' \<and> \<not> is_concat_expression (''Salary'' @ CHR ''*'' # ''0.1''))
         \<or> (CHR ''*'' = CHR ''+'' \<and> CHR ''*'' \<notin> set ''0.1''
              \<and> list_ex isdigit (strip (takeWhile (\<lambda>c. c \<noteq> CHR ''+'') ''0.1'')))"
    by (simp add: is_concat_expression_def)
  have d: "list_ex isdigit (strip (takeWhile (\<lambda>c. c \<noteq> CHR ''+'') ''1''))" by code_simp
  have 3: "(CHR ''+'' = CHR ''*'' \<and> \<not> is_concat_expression (''Age'' @ CHR ''+'' # ''1''))
         \<or> (CHR ''+'' = CHR ''+'' \<and> CHR ''*'' \<notin> set ''1''
              \<and> list_ex isdigit (strip (takeWhile (\<lambda>c. c \<noteq> CHR ''+'') ''1'')))"
    using d by simp
  have s: "strip ''Salary'' = ''Salary''" "strip ''Age'' = ''Age''" "strip ''0.1'' = ''0.1''"
    "strip ''1'' = ''1''"
    by code_simp+
  have t: "try_convert_type exact_ops (VStr ''0.1'') = VFloat (1 / 10)"
    "try_convert_type exact_ops (VStr ''1'') = VInt 1"
    "try_convert_type exact_ops (VInt 1000) = VInt 1000"
    "try_convert_type exact_ops (VInt 30) = VInt 30"
    by code_simp+
  have f: "float_of_int exact_ops 1000 = Some 1000" "float_mul exact_ops = (\<lambda>x y. x * y)"
    by (simp_all add: exact_ops_def)
  show ?thesis
    using arith_expression_result[OF 1(1) 1(1) 2, of exact_ops "''Bonus''" "[(''Salary'', VInt 1000)]"]
      arith_expression_result[OF 1(2) 1(3) 3, of exact_ops "''Next''" "[(''Age'', VInt 30)]"]
      arith_expression_result[OF 1(2) 1(3) 3, of exact_ops "''Next''" "[(''Name'', VStr ''Ann'')]"]
    by (simp add: s t f)
qed

subsection \<open>The pipeline\<close>








lemma well_formed_examples:
  "\<not> malformed_spec ''rename:A:X,B:Y''"
  "apply_transform exact_ops [[(''A'', VInt 1), (''B'', VInt 2)]] ''rename:A:X,B:Y''
     = [[(''X'', VInt 1), (''Y'', VInt 2)]]"
  by code_simp+

subsection \<open>The order of sort keys\<close>

lemma py_eq_refl: "py_eq a a"
  by (cases a) (simp_all add: py_eq_def num_val_def)

lemma py_eq_sym: "py_eq a b \<Longrightarrow> py_eq b a"
  by (cases a; cases b) (simp_all add: py_eq_def num_val_def)

lemma py_eq_trans: "py_eq a b \<Longrightarrow> py_eq b c \<Longrightarrow> py_eq a c"
  by (cases a; cases b; cases c) (simp_all add: py_eq_def num_val_def)

lemma key_less_iff:
  "key_less a b =
     (case (num_val a, num_val b) of
        (Some x, Some y) \<Rightarrow> x < y
      | _ \<Rightarrow> (case (a, b) of
                (VStr s, VStr t) \<Rightarrow> s < t
              | (VNone, _) \<Rightarrow> False
              | (_, VNone) \<Rightarrow> True
              | _ \<Rightarrow> False))"
  by (cases a; cases b)
     (auto simp: key_less_def tuple_lt_def py_eq_def py_lt_def py_compare_def num_val_def)

lemma tuple_lt_False:
  "tuple_lt (b = VNone, b) (a = VNone, a) = Inr False \<Longrightarrow> key_less a b \<or> py_eq a b"
  by (cases a; cases b)
     (auto simp: key_less_def tuple_lt_def py_eq_def py_lt_def py_compare_def num_val_def
           split: if_splits)

lemma key_less_trans: "key_less a b \<Longrightarrow> key_less b c \<Longrightarrow> key_less a c"
  by (cases a; cases b; cases c) (auto simp: key_less_iff num_val_def)

lemma key_less_eq_trans: "key_less a b \<Longrightarrow> py_eq b c \<Longrightarrow> key_less a c"
  by (cases a; cases b; cases c) (auto simp: key_less_iff py_eq_def num_val_def)

lemma eq_key_less_trans: "py_eq a b \<Longrightarrow> key_less b c \<Longrightarrow> key_less a c"
  by (cases a; cases b; cases c) (auto simp: key_less_iff py_eq_def num_val_def)


lemma key_less_asym: "key_less a b \<Longrightarrow> \<not> key_less b a"
  by (cases a; cases b) (auto simp: key_less_iff num_val_def)

lemma key_less_absent: "key_less a b \<Longrightarrow> a \<noteq> VNone"
  by (cases a; cases b) (auto simp: key_less_iff num_val_def)

subsection \<open>Sort: permutation, order and stability\<close>

lemma insert_sorted_mset:
  "insert_sorted lt x ys = Inr zs \<Longrightarrow> mset zs = add_mset x (mset ys)"
  by (induction ys arbitrary: zs) (auto split: sum.splits bool.splits)

lemma insertion_sort_mset: "insertion_sort lt xs = Inr ys \<Longrightarrow> mset ys = mset xs"
  by (induction xs arbitrary: ys) (auto split: sum.splits dest: insert_sorted_mset)

lemma list_sort_mset:
  assumes "list_sort f reverse_order xs = Inr ys"
  shows "mset ys = mset xs"
  using assms insertion_sort_mset[of "key_lt f"]
  by (fastforce simp: list_sort_def split: if_splits sum.splits)

lemma sort_passes_mset: "sort_passes g ks xs = Inr ys \<Longrightarrow> mset ys = mset xs"
  by (induction ks arbitrary: xs) (auto split: sum.splits dest: list_sort_mset)

text \<open>Insertion keeps a list sorted for any relation that fits the comparisons made.\<close>

lemma insert_sorted_sorted_wrt:
  assumes "insert_sorted lt x ys = Inr zs" and "sorted_wrt R ys"
      and "\<And>y. y \<in> set ys \<Longrightarrow> lt y x = Inr True \<Longrightarrow> R y x"
      and "\<And>y. y \<in> set ys \<Longrightarrow> lt y x = Inr False \<Longrightarrow> R x y"
      and "\<And>y z. y \<in> set ys \<Longrightarrow> z \<in> set ys \<Longrightarrow> lt y x = Inr False \<Longrightarrow> R y z \<Longrightarrow> R x z"
  shows "sorted_wrt R zs"
  using assms
proof (induction ys arbitrary: zs)
  case Nil
  then show ?case by auto
next
  case (Cons y ys)
  show ?case
  proof (cases "lt y x")
    case (Inl e)
    with Cons.prems(1) show ?thesis by simp
  next
    case (Inr b)
    show ?thesis
    proof (cases b)
      case False
      with Inr Cons.prems(1) have zs: "zs = x # y # ys" by simp
      have "R x y" using Cons.prems(4)[of y] Inr False by simp
      moreover have "R x z" if "z \<in> set ys" for z
        using Cons.prems(5)[of y z] Cons.prems(2) Inr False that by simp
      ultimately show ?thesis using zs Cons.prems(2) by simp
    next
      case True
      with Inr Cons.prems(1) obtain zs' where
        z: "insert_sorted lt x ys = Inr zs'" "zs = y # zs'"
        by (auto split: sum.splits)
      have s: "sorted_wrt R zs'"
      proof (rule Cons.IH[OF z(1)])
        show "sorted_wrt R ys" using Cons.prems(2) by simp
        show "R u x" if "u \<in> set ys" "lt u x = Inr True" for u
          using Cons.prems(3)[of u] that by simp
        show "R x u" if "u \<in> set ys" "lt u x = Inr False" for u
          using Cons.prems(4)[of u] that by simp
        show "R x w" if "u \<in> set ys" "w \<in> set ys" "lt u x = Inr False" "R u w" for u w
          using Cons.prems(5)[of u w] that by simp
      qed
      have "set zs' = insert x (set ys)"
        using insert_sorted_mset[OF z(1)] by (metis set_mset_add_mset_insert set_mset_mset)
      moreover have "R y x" using Cons.prems(3)[of y] Inr True by simp
      ultimately show ?thesis using s z(2) Cons.prems(2) by auto
    qed
  qed
qed

text \<open>
  One stable pass: from a list sorted for \<open>Q\<close>, a list sorted first by the key and then
  by \<open>Q\<close>.
\<close>

lemma insertion_sort_lex:
  assumes "insertion_sort (key_lt f) xs = Inr ys" and "sorted_wrt Q xs"
  shows "sorted_wrt (\<lambda>a b. key_less (f a) (f b) \<or> (py_eq (f a) (f b) \<and> Q a b)) ys"
  using assms
proof (induction xs arbitrary: ys)
  case Nil
  then show ?case by simp
next
  case (Cons x xs)
  let ?R = "\<lambda>a b. key_less (f a) (f b) \<or> (py_eq (f a) (f b) \<and> Q a b)"
  from Cons.prems(1) obtain ys' where
    y: "insertion_sort (key_lt f) xs = Inr ys'" "insert_sorted (key_lt f) x ys' = Inr ys"
    by (auto split: sum.splits)
  have s: "sorted_wrt ?R ys'" using Cons.IH[OF y(1)] Cons.prems(2) by simp
  have set: "set ys' = set xs" using insertion_sort_mset[OF y(1)] by (metis set_mset_mset)
  have q: "Q x z" if "z \<in> set ys'" for z using that set Cons.prems(2) by simp
  show ?case
  proof (rule insert_sorted_sorted_wrt[OF y(2) s])
    fix y assume "y \<in> set ys'" "key_lt f y x = Inr True"
    then show "?R y x" by (simp add: key_lt_def key_less_def)
  next
    fix y assume "y \<in> set ys'" "key_lt f y x = Inr False"
    then show "?R x y" using tuple_lt_False[of "f y" "f x"] q by (auto simp: key_lt_def)
  next
    fix y z assume a: "y \<in> set ys'" "z \<in> set ys'" "key_lt f y x = Inr False" "?R y z"
    from a(3) have xy: "key_less (f x) (f y) \<or> py_eq (f x) (f y)"
      using tuple_lt_False[of "f y" "f x"] by (simp add: key_lt_def)
    from xy a(4) q[OF a(2)] show "?R x z"
      by (meson key_less_trans key_less_eq_trans eq_key_less_trans py_eq_trans)
  qed
qed

lemma list_sort_lex:
  assumes "list_sort f reverse_order xs = Inr ys" and "sorted_wrt Q xs"
  shows "sorted_wrt (\<lambda>a b. (if reverse_order then key_less (f b) (f a) else key_less (f a) (f b))
                          \<or> (py_eq (f a) (f b) \<and> Q a b)) ys"
proof (cases reverse_order)
  case False
  with assms insertion_sort_lex[of f xs ys Q] show ?thesis by (simp add: list_sort_def)
next
  case True
  with assms(1) obtain zs where
    z: "insertion_sort (key_lt f) (rev xs) = Inr zs" "ys = rev zs"
    by (auto simp: list_sort_def split: sum.splits)
  have "sorted_wrt (\<lambda>a b. Q b a) (rev xs)" using assms(2) by (simp add: sorted_wrt_rev)
  from insertion_sort_lex[OF z(1) this]
  have "sorted_wrt (\<lambda>a b. key_less (f a) (f b) \<or> (py_eq (f a) (f b) \<and> Q b a)) zs" .
  then have "sorted_wrt (\<lambda>b a. key_less (f a) (f b) \<or> (py_eq (f a) (f b) \<and> Q b a)) (rev zs)"
    by (simp add: sorted_wrt_rev)
  then have "sorted_wrt (\<lambda>a b. key_less (f b) (f a) \<or> (py_eq (f a) (f b) \<and> Q a b)) (rev zs)"
    by (rule sorted_wrt_mono_rel[rotated]) (auto dest: py_eq_sym)
  with True z(2) show ?thesis by simp
qed

lemma sort_passes_snoc:
  "sort_passes g (ks @ [k]) xs =
     (case sort_passes g ks xs of
        Inl e \<Rightarrow> Inl e
      | Inr ys \<Rightarrow> list_sort (\<lambda>x. g x (fst k)) (lower (snd k) = ''desc'') ys)"
  by (induction ks arbitrary: xs) (auto split: sum.splits)





lemma same_keys_Cons:
  "same_keys (k # ks) r x = (py_eq (row_get x (fst k)) (row_get r (fst k)) \<and> same_keys ks r x)"
  by (simp add: same_keys_def)




text \<open>
  The sort returns when no key column holds values of two kinds, \<open>None\<close> and missing
  fields apart.
\<close>

lemma insert_sorted_returns:
  "(\<And>y. y \<in> set ys \<Longrightarrow> \<exists>b. lt y x = Inr b) \<Longrightarrow> \<exists>zs. insert_sorted lt x ys = Inr zs"
proof (induction ys)
  case Nil
  then show ?case by simp
next
  case (Cons y ys)
  from Cons.prems[of y] obtain b where b: "lt y x = Inr b" by auto
  from Cons.IH Cons.prems obtain zs where "insert_sorted lt x ys = Inr zs" by auto
  with b show ?case by (cases b) auto
qed

lemma insertion_sort_returns:
  "(\<And>a b. a \<in> set xs \<Longrightarrow> b \<in> set xs \<Longrightarrow> \<exists>r. lt a b = Inr r) \<Longrightarrow>
   \<exists>ys. insertion_sort lt xs = Inr ys"
proof (induction xs)
  case Nil
  then show ?case by simp
next
  case (Cons x xs)
  from Cons.IH Cons.prems obtain ys where y: "insertion_sort lt xs = Inr ys" by auto
  have "set ys = set xs" using insertion_sort_mset[OF y] by (metis set_mset_mset)
  then have "\<exists>zs. insert_sorted lt x ys = Inr zs"
    using insert_sorted_returns[of ys lt x] Cons.prems by auto
  with y show ?case by auto
qed

lemma key_lt_returns:
  "f a = VNone \<or> f b = VNone \<or> kind_of (f a) = kind_of (f b) \<Longrightarrow> \<exists>r. key_lt f a b = Inr r"
  by (cases "f a"; cases "f b")
     (auto simp: key_lt_def tuple_lt_def py_lt_def py_compare_def py_eq_def num_val_def kind_of_def)

lemma list_sort_returns:
  assumes "\<And>a b. a \<in> set xs \<Longrightarrow> b \<in> set xs \<Longrightarrow>
             f a = VNone \<or> f b = VNone \<or> kind_of (f a) = kind_of (f b)"
  shows "\<exists>ys. list_sort f reverse_order xs = Inr ys"
proof -
  have "\<exists>ys. insertion_sort (key_lt f) l = Inr ys" if "set l = set xs" for l
    using that assms by (intro insertion_sort_returns key_lt_returns) auto
  from this[of xs] this[of "rev xs"] show ?thesis
    by (auto simp: list_sort_def)
qed

lemma sort_passes_returns:
  assumes "\<And>k a b. k \<in> set ks \<Longrightarrow> a \<in> set xs \<Longrightarrow> b \<in> set xs \<Longrightarrow>
             g a (fst k) = VNone \<or> g b (fst k) = VNone
             \<or> kind_of (g a (fst k)) = kind_of (g b (fst k))"
  shows "\<exists>ys. sort_passes g ks xs = Inr ys"
  using assms
proof (induction ks arbitrary: xs)
  case Nil
  then show ?case by simp
next
  case (Cons k ks)
  from list_sort_returns[of xs "\<lambda>x. g x (fst k)" "lower (snd k) = ''desc''"] Cons.prems
  obtain zs where z: "list_sort (\<lambda>x. g x (fst k)) (lower (snd k) = ''desc'') xs = Inr zs"
    by auto
  have "set zs = set xs" using list_sort_mset[OF z] by (metis set_mset_mset)
  then have "\<exists>ys. sort_passes g ks zs = Inr ys"
    using Cons.prems by (intro Cons.IH) auto
  with z show ?case by auto
qed

lemma transform_sort_data_returns:
  assumes "\<And>k a b. k \<in> set sort_keys \<Longrightarrow> a \<in> set data \<Longrightarrow> b \<in> set data \<Longrightarrow>
             row_get a (fst k) = VNone \<or> row_get b (fst k) = VNone
             \<or> kind_of (row_get a (fst k)) = kind_of (row_get b (fst k))"
  shows "\<exists>out. transform_sort_data data sort_keys = Inr out"
  using sort_passes_returns[of "rev sort_keys" data row_get] assms
  by (auto simp: transform_sort_data_def)

subsection \<open>Sort: records without the key\<close>

lemma sorted_wrt_partition:
  "sorted_wrt (\<lambda>a b. P a \<longrightarrow> P b) xs \<Longrightarrow> xs = filter (\<lambda>a. \<not> P a) xs @ filter P xs"
proof (induction xs)
  case Nil
  then show ?case by simp
next
  case (Cons x xs)
  show ?case
  proof (cases "P x")
    case True
    with Cons.prems have "\<forall>y\<in>set xs. P y" by simp
    then have "filter (\<lambda>a. \<not> P a) xs = []" "filter P xs = xs" by (auto simp: filter_empty_conv)
    with True show ?thesis by simp
  next
    case False
    with Cons show ?thesis by simp
  qed
qed

lemma list_sort_absent:
  assumes "list_sort f reverse_order xs = Inr ys"
  shows "sorted_wrt (\<lambda>a b. if reverse_order then f b = VNone \<longrightarrow> f a = VNone
                           else f a = VNone \<longrightarrow> f b = VNone) ys"
proof -
  have e: "py_eq u v \<Longrightarrow> (u = VNone) = (v = VNone)" for u v
    by (cases u; cases v) (simp_all add: py_eq_def num_val_def)
  have "sorted_wrt (\<lambda>a b. True) xs" by (simp add: sorted_wrt_iff_nth_less)
  from list_sort_lex[OF assms this] show ?thesis
    by (rule sorted_wrt_mono_rel[rotated]) (auto dest: key_less_absent e split: if_splits)
qed

text \<open>
  C1, as the specification states it, fails: with direction \<open>asc\<close> the record without
  the column \<open>A\<close> is placed after the record that has it. Only with \<open>desc\<close> does it
  come first.
\<close>

theorem sort_absent_counterexample:
  "transform_sort_data [[(''B'', VInt 0)], [(''A'', VInt 1)]] [(''A'', ''asc'')]
     = Inr [[(''A'', VInt 1)], [(''B'', VInt 0)]]
   \<and> transform_sort_data [[(''A'', VInt 1)], [(''B'', VInt 0)]] [(''A'', ''desc'')]
     = Inr [[(''B'', VInt 0)], [(''A'', VInt 1)]]"
  by code_simp

text \<open>
  C1, amended. When the sort returns, and for its first key: with direction \<open>desc\<close>
  the records in which the column is missing or \<open>None\<close> stand before all the records
  in which it has a value; with any other direction they stand after all of them. The
  grouping of the absent values is reversed with the direction.
\<close>

theorem sort_absent_by_direction:
  assumes "transform_sort_data data ((col, order) # rest) = Inr out"
  shows "out = (if lower order = ''desc''
                then filter (\<lambda>r. row_get r col = VNone) out
                     @ filter (\<lambda>r. row_get r col \<noteq> VNone) out
                else filter (\<lambda>r. row_get r col \<noteq> VNone) out
                     @ filter (\<lambda>r. row_get r col = VNone) out)"
proof (cases "data = []")
  case True
  with assms show ?thesis by (auto simp: transform_sort_data_def)
next
  case False
  with assms obtain zs where
    z: "list_sort (\<lambda>x. row_get x col) (lower order = ''desc'') zs = Inr out"
    by (auto simp: transform_sort_data_def sort_passes_snoc split: sum.splits)
  show ?thesis
  proof (cases "lower order = ''desc''")
    case True
    with list_sort_absent[OF z]
    have "sorted_wrt (\<lambda>a b. row_get a col \<noteq> VNone \<longrightarrow> row_get b col \<noteq> VNone) out"
      by (auto elim!: sorted_wrt_mono_rel[rotated])
    from sorted_wrt_partition[OF this] True show ?thesis by simp
  next
    case False
    with list_sort_absent[OF z]
    have "sorted_wrt (\<lambda>a b. row_get a col = VNone \<longrightarrow> row_get b col = VNone) out"
      by simp
    from sorted_wrt_partition[OF this] False show ?thesis by simp
  qed
qed

theorem sort_absent_by_direction_witness:
  "transform_sort_data [[(''B'', VInt 0)], [(''A'', VInt 2)], [(''A'', VInt 1)]] [(''A'', ''asc'')]
     = Inr [[(''A'', VInt 1)], [(''A'', VInt 2)], [(''B'', VInt 0)]]
   \<and> [[(''A'', VInt 1)], [(''A'', VInt 2)], [(''B'', VInt 0)]]
     = filter (\<lambda>r. row_get r ''A'' \<noteq> VNone) [[(''A'', VInt 1)], [(''A'', VInt 2)], [(''B'', VInt 0)]]
       @ filter (\<lambda>r. row_get r ''A'' = VNone) [[(''A'', VInt 1)], [(''A'', VInt 2)], [(''B'', VInt 0)]]"
proof -
  have h: "transform_sort_data [[(''B'', VInt 0)], [(''A'', VInt 2)], [(''A'', VInt 1)]]
             [(''A'', ''asc'')]
           = Inr [[(''A'', VInt 1)], [(''A'', VInt 2)], [(''B'', VInt 0)]]"
    by code_simp
  have l: "lower ''asc'' \<noteq> ''desc''" by code_simp
  show ?thesis
    using h l sort_absent_by_direction[OF h] by simp
qed

subsection \<open>Sort: a missing field and a field that is None\<close>

text \<open>
  Sorting commutes with a change of the elements that the keys do not see.
\<close>

lemma insert_sorted_map:
  "insert_sorted lt (h x) (map h ys) =
     (case insert_sorted (\<lambda>a b. lt (h a) (h b)) x ys of
        Inl e \<Rightarrow> Inl e | Inr zs \<Rightarrow> Inr (map h zs))"
  by (induction ys) (auto split: sum.splits bool.splits)

lemma insertion_sort_map:
  "insertion_sort lt (map h xs) =
     (case insertion_sort (\<lambda>a b. lt (h a) (h b)) xs of
        Inl e \<Rightarrow> Inl e | Inr ys \<Rightarrow> Inr (map h ys))"
  by (induction xs) (auto simp: insert_sorted_map split: sum.splits)

lemma list_sort_map:
  "list_sort f reverse_order (map h xs) =
     (case list_sort (\<lambda>x. f (h x)) reverse_order xs of
        Inl e \<Rightarrow> Inl e | Inr ys \<Rightarrow> Inr (map h ys))"
proof -
  have k: "(\<lambda>a b. key_lt f (h a) (h b)) = key_lt (\<lambda>x. f (h x))"
    by (simp add: key_lt_def fun_eq_iff)
  show ?thesis
    using insertion_sort_map[of "key_lt f" h xs] insertion_sort_map[of "key_lt f" h "rev xs"]
    by (auto simp: list_sort_def k rev_map split: sum.splits)
qed

lemma sort_passes_map:
  "sort_passes g ks (map h xs) =
     (case sort_passes (\<lambda>x. g (h x)) ks xs of
        Inl e \<Rightarrow> Inl e | Inr ys \<Rightarrow> Inr (map h ys))"
proof (induction ks arbitrary: xs)
  case Nil
  then show ?case by simp
next
  case (Cons k ks)
  show ?case
    using list_sort_map[of "\<lambda>x. g x (fst k)" "lower (snd k) = ''desc''" h xs] Cons.IH
    by (auto split: sum.splits)
qed

lemma row_get_dict_set_None:
  "map_of r c = None \<Longrightarrow> row_get (dict_set r c VNone) col = row_get r col"
proof (induction r)
  case Nil
  then show ?case by (simp add: row_get_def row_get_default_def)
next
  case (Cons p r)
  then show ?case
    by (cases p) (auto simp: row_get_def row_get_default_def split: if_splits)
qed

lemma single_flag_split:
  assumes "mset ws = mset (map (\<lambda>x. (x, False)) pre @ (r, True) # map (\<lambda>x. (x, False)) post)"
  shows "\<exists>w1 w2. ws = map (\<lambda>x. (x, False)) w1 @ (r, True) # map (\<lambda>x. (x, False)) w2"
proof -
  let ?zs = "map (\<lambda>x. (x, False)) pre @ (r, True) # map (\<lambda>x. (x, False)) post"
  have "(r, True) \<in> set ws" using assms by (metis in_set_conv_decomp set_mset_mset)
  then obtain u1 u2 where u: "ws = u1 @ (r, True) # u2" by (auto simp: in_set_conv_decomp)
  have "mset (u1 @ u2) = mset (map (\<lambda>x. (x, False)) (pre @ post))"
    using assms u by simp
  then have "set (u1 @ u2) = set (map (\<lambda>x. (x, False)) (pre @ post))"
    by (metis set_mset_mset)
  then have f: "\<forall>z\<in>set u1 \<union> set u2. \<not> snd z" by auto
  have "l = map (\<lambda>x. (x, False)) (map fst l)" if "\<forall>z\<in>set l. \<not> snd z" for l :: "('a \<times> bool) list"
    using that by (induction l) auto
  from this[of u1] this[of u2] f u show ?thesis by (metis UnCI)
qed

text \<open>
  C10. Let a record of the dataset lack the column \<open>c\<close>, and let the field \<open>c\<close> be
  added to it with the value \<open>None\<close>. The sort of the two datasets raises the same
  error, or returns the same list but for that record, which stands at the same place
  with the field added: the key is read with \<open>row.get\<close>, which is \<open>None\<close> for both.
\<close>

theorem sort_null_like_missing:
  assumes "map_of r c = None"
  shows "case transform_sort_data (pre @ r # post) sort_keys of
           Inl e \<Rightarrow> transform_sort_data (pre @ dict_set r c VNone # post) sort_keys = Inl e
         | Inr out \<Rightarrow>
             (\<exists>before after. out = before @ r # after
                \<and> transform_sort_data (pre @ dict_set r c VNone # post) sort_keys
                    = Inr (before @ dict_set r c VNone # after))"
proof (cases "sort_keys = []")
  case True
  then show ?thesis by (auto simp: transform_sort_data_def)
next
  case False
  let ?zs = "map (\<lambda>x. (x, False)) pre @ (r, True) # map (\<lambda>x. (x, False)) post"
  let ?h = "\<lambda>z. if snd z \<and> map_of (fst z) c = None then dict_set (fst z) c VNone else fst z"
  have g: "(\<lambda>z. row_get (?h z)) = (\<lambda>z. row_get (fst z))"
    by (auto simp: fun_eq_iff row_get_dict_set_None)
  have d1: "pre @ r # post = map fst ?zs" by (simp add: comp_def)
  have d2: "pre @ dict_set r c VNone # post = map ?h ?zs" using assms by (simp add: comp_def)
  have t1: "transform_sort_data (pre @ r # post) sort_keys =
      (case sort_passes (\<lambda>z. row_get (fst z)) (rev sort_keys) ?zs of
         Inl e \<Rightarrow> Inl e | Inr ws \<Rightarrow> Inr (map fst ws))"
    unfolding d1 using False sort_passes_map[of row_get "rev sort_keys" fst ?zs]
    by (simp add: transform_sort_data_def)
  have t2: "transform_sort_data (pre @ dict_set r c VNone # post) sort_keys =
      (case sort_passes (\<lambda>z. row_get (fst z)) (rev sort_keys) ?zs of
         Inl e \<Rightarrow> Inl e | Inr ws \<Rightarrow> Inr (map ?h ws))"
    unfolding d2 using False sort_passes_map[of row_get "rev sort_keys" ?h ?zs]
    by (simp add: transform_sort_data_def g)
  show ?thesis
  proof (cases "sort_passes (\<lambda>z. row_get (fst z)) (rev sort_keys) ?zs")
    case (Inl e)
    then show ?thesis by (simp add: t1 t2)
  next
    case (Inr ws)
    from single_flag_split[OF sort_passes_mset[OF Inr]] obtain w1 w2 where
      w: "ws = map (\<lambda>x. (x, False)) w1 @ (r, True) # map (\<lambda>x. (x, False)) w2" by blast
    have m1: "map fst ws = w1 @ r # w2" using w by (simp add: comp_def)
    have m2: "map ?h ws = w1 @ dict_set r c VNone # w2"
      using w assms by (simp add: comp_def)
    have "\<exists>before after. map fst ws = before @ r # after
            \<and> Inr (map ?h ws) = (Inr (before @ dict_set r c VNone # after) :: py_error + dataset)"
      unfolding m1 m2 by blast
    then show ?thesis using Inr by (simp add: t1 t2)
  qed
qed

theorem sort_null_like_missing_witness:
  "map_of [(''B'', VInt 0)] ''A'' = None
   \<and> transform_sort_data ([[(''A'', VInt 2)]] @ [(''B'', VInt 0)] # [[(''A'', VInt 1)]])
        [(''A'', ''desc'')]
       = Inr [[(''B'', VInt 0)], [(''A'', VInt 2)], [(''A'', VInt 1)]]
   \<and> transform_sort_data ([[(''A'', VInt 2)]] @ [(''B'', VInt 0), (''A'', VNone)] # [[(''A'', VInt 1)]])
        [(''A'', ''desc'')]
       = Inr [[(''B'', VInt 0), (''A'', VNone)], [(''A'', VInt 2)], [(''A'', VInt 1)]]"
proof -
  have m: "map_of [(''B'', VInt 0)] ''A'' = None" by simp
  have h: "transform_sort_data ([[(''A'', VInt 2)]] @ [(''B'', VInt 0)] # [[(''A'', VInt 1)]])
             [(''A'', ''desc'')]
           = Inr [[(''B'', VInt 0)], [(''A'', VInt 2)], [(''A'', VInt 1)]]"
    by code_simp
  have d: "dict_set [(''B'', VInt 0)] ''A'' VNone = [(''B'', VInt 0), (''A'', VNone)]" by simp
  from sort_null_like_missing[OF m, of "[[(''A'', VInt 2)]]" "[[(''A'', VInt 1)]]" "[(''A'', ''desc'')]"]
  obtain before after where
    b: "[[(''B'', VInt 0)], [(''A'', VInt 2)], [(''A'', VInt 1)]] = before @ [(''B'', VInt 0)] # after"
       "transform_sort_data ([[(''A'', VInt 2)]] @ dict_set [(''B'', VInt 0)] ''A'' VNone # [[(''A'', VInt 1)]])
          [(''A'', ''desc'')]
        = Inr (before @ dict_set [(''B'', VInt 0)] ''A'' VNone # after)"
    unfolding h by auto
  from b(1) have "before = [] \<and> after = [[(''A'', VInt 2)], [(''A'', VInt 1)]]"
    by (cases before) (auto simp: Cons_eq_append_conv)
  with b(2) m h show ?thesis by (simp add: d)
qed

end
